theory Spec2Isabelle
  imports Complex_Main
begin

section \<open>JSON fields as the client reads them\<close>

text \<open>
  The client reads every server object as \<^verbatim>\<open>any\<close>. A property of such an object is
  missing (JavaScript \<^verbatim>\<open>undefined\<close>), \<^verbatim>\<open>null\<close>, or holds a value. The server fixes
  the type of each property, so a present, non-null property holds a value of its own type:
  a number (modelled as a rational; the code only passes numbers on, negates them and adds
  them, rounding of the addition is not modelled) or a text.
\<close>

datatype 'a jfield = Absent | Null | Val 'a

type_synonym number = rat

text \<open>\<^verbatim>\<open>x || d\<close> on a text: every falsy \<^verbatim>\<open>x\<close> (missing, null, empty) gives \<^verbatim>\<open>d\<close>.\<close>

definition or_text :: "string jfield \<Rightarrow> string \<Rightarrow> string" where
  "or_text x d = (case x of Val s \<Rightarrow> if s = [] then d else s | Null \<Rightarrow> d | Absent \<Rightarrow> d)"

text \<open>\<^verbatim>\<open>x || d\<close> on a number: missing, null and zero are falsy.\<close>

definition or_num :: "number jfield \<Rightarrow> number \<Rightarrow> number" where
  "or_num x d = (case x of Val n \<Rightarrow> if n = 0 then d else n | Null \<Rightarrow> d | Absent \<Rightarrow> d)"

text \<open>\<^verbatim>\<open>x ?? d\<close>: only missing and null give \<^verbatim>\<open>d\<close>.\<close>

definition nullish :: "'a jfield \<Rightarrow> 'a \<Rightarrow> 'a" where
  "nullish x d = (case x of Val v \<Rightarrow> v | Null \<Rightarrow> d | Absent \<Rightarrow> d)"

section \<open>The display model\<close>

subsection \<open>Account information\<close>

record account_info_json =
  customer_name :: "string jfield"
  account_number :: "string jfield"
  iban_number :: "string jfield"
  opening_balance :: "number jfield"
  closing_balance :: "number jfield"
  financial_period :: "string jfield"
  pages_processed :: "number jfield"
  total_transactions :: "number jfield"

record account_view =
  customerName :: string
  accountNumber :: string
  ibanNumber :: string
  openingBalance :: number
  closingBalance :: number
  financialPeriod :: string
  pagesProcessed :: number
  totalTransactions :: number

definition mapAccountInfo :: "account_info_json \<Rightarrow> account_view" where
  "mapAccountInfo accountInfo =
     \<lparr> customerName = or_text (customer_name accountInfo) '''',
       accountNumber = or_text (account_number accountInfo) '''',
       ibanNumber = or_text (iban_number accountInfo) '''',
       openingBalance = or_num (opening_balance accountInfo) 0,
       closingBalance = or_num (closing_balance accountInfo) 0,
       financialPeriod = or_text (financial_period accountInfo) '''',
       pagesProcessed = or_num (pages_processed accountInfo) 0,
       totalTransactions = or_num (total_transactions accountInfo) 0 \<rparr>"

text \<open>The object \<^verbatim>\<open>{}\<close> that stands in for a missing \<^verbatim>\<open>account_info\<close>.\<close>

definition empty_account_info :: account_info_json where
  "empty_account_info =
     \<lparr> customer_name = Absent, account_number = Absent, iban_number = Absent,
       opening_balance = Absent, closing_balance = Absent, financial_period = Absent,
       pages_processed = Absent, total_transactions = Absent \<rparr>"

subsection \<open>Monthly statistics\<close>

text \<open>
  The statistics record of one month. Two of its properties share their names with
  properties of the account information; they carry the prefix \<open>stats_\<close> here, and so
  does \<^verbatim>\<open>fluctuation\<close>, whose display field has the same name.
\<close>

record stats_json =
  stats_opening_balance :: "number jfield"
  stats_closing_balance :: "number jfield"
  total_credit :: "number jfield"
  total_debit :: "number jfield"
  net_change :: "number jfield"
  stats_fluctuation :: "number jfield"
  international_inward_count :: "number jfield"
  international_outward_count :: "number jfield"
  international_inward_total :: "number jfield"
  international_outward_total :: "number jfield"
  minimum_balance :: "number jfield"

record month_view =
  month :: string
  month_openingBalance :: number
  month_closingBalance :: number
  inflows :: number
  outflows :: number
  netChange :: number
  fluctuation :: number
  foreignTxns :: number
  foreignAmount :: number
  minBalance :: number

text \<open>
  \<^verbatim>\<open>mapMonthlyStats(month, stats)\<close>. Reading a property of \<^verbatim>\<open>null\<close> or \<^verbatim>\<open>undefined\<close>
  throws a \<^verbatim>\<open>TypeError\<close>: the result \<open>None\<close>.
\<close>

definition mapMonthlyStats :: "string \<Rightarrow> stats_json jfield \<Rightarrow> month_view option" where
  "mapMonthlyStats m stats =
     (case stats of
        Absent \<Rightarrow> None
      | Null \<Rightarrow> None
      | Val s \<Rightarrow> Some
          \<lparr> month = m,
            month_openingBalance = nullish (stats_opening_balance s) 0,
            month_closingBalance = nullish (stats_closing_balance s) 0,
            inflows = nullish (total_credit s) 0,
            outflows = \<bar>nullish (total_debit s) 0\<bar>,
            netChange = nullish (net_change s) 0,
            fluctuation = nullish (stats_fluctuation s) 0,
            foreignTxns = nullish (international_inward_count s) 0
                          + nullish (international_outward_count s) 0,
            foreignAmount = nullish (international_inward_total s) 0
                            + nullish (international_outward_total s) 0,
            minBalance = nullish (minimum_balance s) 0 \<rparr>)"


text \<open>
  \<^verbatim>\<open>Object.entries(monthly_analysis).map(...)\<close> with both \<^verbatim>\<open>try/catch\<close> layers: a month
  that cannot be mapped makes the whole step throw.
\<close>

fun map_months :: "(string \<times> stats_json jfield) list \<Rightarrow> month_view list option" where
  "map_months [] = Some []"
| "map_months ((m, stats) # rest) =
     (case mapMonthlyStats m stats of
        None \<Rightarrow> None
      | Some v \<Rightarrow> (case map_months rest of None \<Rightarrow> None | Some vs \<Rightarrow> Some (v # vs)))"

text \<open>\<^verbatim>\<open>monthly_analysis ? Object.entries(...).map(...) : []\<close>.\<close>

definition mappedMonthlyData ::
  "(string \<times> stats_json jfield) list jfield \<Rightarrow> month_view list option" where
  "mappedMonthlyData monthly_analysis =
     (case monthly_analysis of
        Absent \<Rightarrow> Some []
      | Null \<Rightarrow> Some []
      | Val entries \<Rightarrow> map_months entries)"

subsection \<open>Analytics\<close>

record analytics_json =
  average_fluctuation :: "number jfield"
  net_cash_flow_stability :: "number jfield"
  total_foreign_transactions :: "number jfield"
  total_foreign_amount :: "number jfield"
  overdraft_frequency :: "number jfield"
  overdraft_total_days :: "number jfield"
  sum_total_inflow :: "number jfield"
  sum_total_outflow :: "number jfield"
  avg_total_inflow :: "number jfield"
  avg_total_outflow :: "number jfield"

text \<open>
  The analytics of the display model keep whatever the server sent: a field of the view is
  itself missing, null or a number. The four last fields keep the server's names in the
  source; they carry the prefix \<open>view_\<close> here.
\<close>

record analytics_view =
  averageFluctuation :: "number jfield"
  netCashFlowStability :: "number jfield"
  totalForeignTransactions :: "number jfield"
  totalForeignAmount :: "number jfield"
  overdraftFrequency :: "number jfield"
  overdraftTotalDays :: "number jfield"
  view_sum_total_inflow :: "number jfield"
  view_sum_total_outflow :: "number jfield"
  view_avg_total_inflow :: "number jfield"
  view_avg_total_outflow :: "number jfield"

text \<open>\<^verbatim>\<open>analytics?.p\<close>: missing when \<^verbatim>\<open>analytics\<close> is missing or null.\<close>

definition opt_chain :: "'r jfield \<Rightarrow> ('r \<Rightarrow> 'a jfield) \<Rightarrow> 'a jfield" where
  "opt_chain obj p = (case obj of Val r \<Rightarrow> p r | Null \<Rightarrow> Absent | Absent \<Rightarrow> Absent)"

definition mappedAnalytics :: "analytics_json jfield \<Rightarrow> analytics_view" where
  "mappedAnalytics a =
     \<lparr> averageFluctuation = opt_chain a average_fluctuation,
       netCashFlowStability = opt_chain a net_cash_flow_stability,
       totalForeignTransactions = opt_chain a total_foreign_transactions,
       totalForeignAmount = opt_chain a total_foreign_amount,
       overdraftFrequency = opt_chain a overdraft_frequency,
       overdraftTotalDays = opt_chain a overdraft_total_days,
       view_sum_total_inflow = opt_chain a sum_total_inflow,
       view_sum_total_outflow = opt_chain a sum_total_outflow,
       view_avg_total_inflow = opt_chain a avg_total_inflow,
       view_avg_total_outflow = opt_chain a avg_total_outflow \<rparr>"

text \<open>
  The results view supplies the fallback when it renders a card: \<^verbatim>\<open>analytics?.p || 0\<close>
  on the whole analytics state, which is \<^verbatim>\<open>null\<close> before the first result.
\<close>

definition rendered_number :: "analytics_view option \<Rightarrow> (analytics_view \<Rightarrow> number jfield) \<Rightarrow> number" where
  "rendered_number a p = (case a of None \<Rightarrow> 0 | Some v \<Rightarrow> or_num (p v) 0)"

text \<open>
  The two percentage cards test \<^verbatim>\<open>analytics?.p !== undefined\<close> and call \<^verbatim>\<open>toFixed\<close> on
  the value: the fallback text for a missing field, the formatted number for a number, and
  a \<^verbatim>\<open>TypeError\<close> while rendering for \<^verbatim>\<open>null\<close>.
\<close>

datatype shown = Fallback | Formatted number | RenderFault

definition rendered_fixed :: "analytics_view option \<Rightarrow> (analytics_view \<Rightarrow> number jfield) \<Rightarrow> shown" where
  "rendered_fixed a p =
     (case a of
        None \<Rightarrow> Fallback
      | Some v \<Rightarrow> (case p v of Absent \<Rightarrow> Fallback | Null \<Rightarrow> RenderFault | Val n \<Rightarrow> Formatted n))"

section \<open>The passcode input\<close>

text \<open>
  The component keeps one text per cell. The character classes of its regular expressions:
  \<^verbatim>\<open>\d\<close> is an ASCII digit.
\<close>

definition is_digit :: "char \<Rightarrow> bool" where
  "is_digit c = (c \<in> set ''0123456789'')"

text \<open>\<^verbatim>\<open>/^\d$/\<close>: exactly one digit.\<close>

definition single_digit :: "string \<Rightarrow> bool" where
  "single_digit v = (case v of [c] \<Rightarrow> is_digit c | _ \<Rightarrow> False)"

text \<open>\<^verbatim>\<open>/^\d+$/\<close>: one digit or more, and nothing else.\<close>

definition all_digits :: "string \<Rightarrow> bool" where
  "all_digits v = (v \<noteq> [] \<and> list_all is_digit v)"

text \<open>\<^verbatim>\<open>newValues.every(v => v !== '') && newValues.join('').length === length\<close>.\<close>

definition complete :: "nat \<Rightarrow> string list \<Rightarrow> bool" where
  "complete len newValues =
     (list_all (\<lambda>v. v \<noteq> []) newValues \<and> length (concat newValues) = len)"

text \<open>
  Each handler returns the new cells and the argument of \<^verbatim>\<open>onComplete\<close> when it calls
  it. The component renders one input per index below \<^verbatim>\<open>length\<close>, so a handler only ever
  receives such an index.
\<close>

definition handleChange ::
  "nat \<Rightarrow> bool \<Rightarrow> string list \<Rightarrow> nat \<Rightarrow> string \<Rightarrow> string list \<times> string option" where
  "handleChange len disabled values index v =
     (if disabled then (values, None)
      else if v \<noteq> [] \<and> \<not> single_digit v then (values, None)
      else let newValues = values[index := v]
           in (newValues, if complete len newValues then Some (concat newValues) else None))"

datatype key = Backspace | OtherKey

definition handleKeyDown :: "bool \<Rightarrow> string list \<Rightarrow> nat \<Rightarrow> key \<Rightarrow> string list" where
  "handleKeyDown disabled values index k =
     (if disabled then values
      else if k = Backspace then
        (if index < length values \<and> values ! index \<noteq> [] then values[index := []]
         else if index > 0 then values[index - 1 := []]
         else values)
      else values)"

definition handlePaste ::
  "nat \<Rightarrow> bool \<Rightarrow> string list \<Rightarrow> string \<Rightarrow> string list \<times> string option" where
  "handlePaste len disabled values text =
     (if disabled then (values, None)
      else let pastedData = take len text
           in if all_digits pastedData
              then (map (\<lambda>c. [c]) pastedData @ replicate (len - length pastedData) [],
                    if length pastedData = len then Some pastedData else None)
              else (values, None))"

datatype interaction = Change nat string | KeyDown nat key | Paste string

text \<open>One interaction, with the value of the \<^verbatim>\<open>disabled\<close> property at that moment.\<close>

definition interact ::
  "nat \<Rightarrow> bool \<times> interaction \<Rightarrow> string list \<Rightarrow> string list \<times> string option" where
  "interact len a values =
     (case snd a of
        Change index v \<Rightarrow> handleChange len (fst a) values index v
      | KeyDown index k \<Rightarrow> (handleKeyDown (fst a) values index k, None)
      | Paste text \<Rightarrow> handlePaste len (fst a) values text)"

text \<open>A sequence of interactions: the final cells and every argument given to \<^verbatim>\<open>onComplete\<close>.\<close>

fun interactions ::
  "nat \<Rightarrow> (bool \<times> interaction) list \<Rightarrow> string list \<Rightarrow> string list \<times> string list" where
  "interactions len [] values = (values, [])"
| "interactions len (a # as) values =
     (case interact len a values of
        (newValues, call) \<Rightarrow>
          (case interactions len as newValues of
             (final, calls) \<Rightarrow> (final, (case call of None \<Rightarrow> [] | Some c \<Rightarrow> [c]) @ calls)))"

text \<open>The index an interaction addresses lies below the number of cells.\<close>

definition in_range :: "nat \<Rightarrow> bool \<times> interaction \<Rightarrow> bool" where
  "in_range len a =
     (case snd a of Change index v \<Rightarrow> index < len | KeyDown index k \<Rightarrow> index < len | Paste text \<Rightarrow> True)"

text \<open>A cell is empty or holds one digit.\<close>

definition cell_ok :: "string \<Rightarrow> bool" where
  "cell_ok v = (v = [] \<or> single_digit v)"

text \<open>The interactions a handler turns down: anything while the input is disabled, a
  change to something other than one digit or the empty text, a paste of something other
  than digits, a key other than backspace.\<close>

definition rejected :: "nat \<Rightarrow> bool \<times> interaction \<Rightarrow> bool" where
  "rejected len a =
     (fst a \<or>
      (case snd a of
         Change index v \<Rightarrow> v \<noteq> [] \<and> \<not> single_digit v
       | KeyDown index k \<Rightarrow> k \<noteq> Backspace
       | Paste text \<Rightarrow> \<not> all_digits (take len text)))"

text \<open>The cells of the component: as many as \<^verbatim>\<open>length\<close>, each empty or one digit.\<close>

definition cells_ok :: "nat \<Rightarrow> string list \<Rightarrow> bool" where
  "cells_ok len values = (length values = len \<and> list_all cell_ok values)"

definition filled :: "string list \<Rightarrow> bool" where
  "filled values = list_all (\<lambda>v. v \<noteq> []) values"

section \<open>The lockout of the login page\<close>
















section \<open>The upload and poll controller\<close>

subsection \<open>What the server sends\<close>

text \<open>A job identifier, as the upload response carries it: a number or a text.\<close>

datatype jsid = IdNum int | IdStr string

text \<open>\<^verbatim>\<open>!pdfId\<close> holds for a missing or null identifier, for \<^verbatim>\<open>0\<close> and for \<^verbatim>\<open>""\<close>.\<close>

definition truthy_id :: "jsid jfield \<Rightarrow> bool" where
  "truthy_id x =
     (case x of
        Val i \<Rightarrow> (case i of IdNum n \<Rightarrow> n \<noteq> 0 | IdStr t \<Rightarrow> t \<noteq> [])
      | Null \<Rightarrow> False
      | Absent \<Rightarrow> False)"

text \<open>
  The body of a failed upload: not JSON, the JSON value \<^verbatim>\<open>null\<close> (reading its
  \<^verbatim>\<open>error\<close> throws a \<^verbatim>\<open>TypeError\<close>, whose message the engine words), or an object with
  its \<^verbatim>\<open>error\<close> property.
\<close>

datatype upload_error_body = ErrUndecodable | ErrNull string | ErrObj "string jfield"

text \<open>
  The body of a successful upload: text that \<^verbatim>\<open>JSON.parse\<close> rejects with a message,
  \<^verbatim>\<open>null\<close>, or an object with its \<^verbatim>\<open>id\<close> property.
\<close>

datatype upload_ok_body = OkUndecodable string | OkNull string | OkObj "jsid jfield"

text \<open>The upload request: rejected with a message, answered outside 2xx (status, status
  text, body), or answered with 2xx.\<close>

datatype upload_response =
    UploadRejected string
  | UploadFailed nat string upload_error_body
  | UploadOk upload_ok_body

datatype status_json = StatusError | StatusProcessing | StatusCompleted | StatusOther

text \<open>The object of the results endpoint; \<open>res_p\<close> is \<^verbatim>\<open>resultsData.p\<close>.\<close>

record results_json =
  res_status :: status_json
  res_error :: "string jfield"
  res_account_info :: "account_info_json jfield"
  res_monthly_analysis :: "(string \<times> stats_json jfield) list jfield"
  res_analytics :: "analytics_json jfield"

datatype results_body = ResUndecodable string | ResNull string | ResObj results_json

text \<open>The results request: rejected with a message, or answered (\<^verbatim>\<open>response.ok\<close>).\<close>

datatype fetch_result = FetchRejected string | FetchResponse bool

subsection \<open>The state\<close>

text \<open>
  Every call of \<^verbatim>\<open>onDrop\<close> with a file is a session: the closure that holds \<^verbatim>\<open>pdfId\<close>,
  \<^verbatim>\<open>pollInterval\<close> and \<^verbatim>\<open>totalPollTime\<close>, and the point where its asynchronous code
  is suspended.
\<close>

datatype pc = Uploading | Scheduled | Fetching | Decoding | Stopping | Ended

record session =
  pdfId :: "jsid option"
  pollInterval :: int
  totalPollTime :: int
  pc :: pc

datatype request = PostUpload string | GetResults jsid | PostStop jsid

text \<open>
  The component state, the two refs, and the browser around them: the pending timers
  (handle, session of the callback, delay), the next timer handle, the sessions and the
  requests sent. Browsers hand out positive handles, so a stored handle is always truthy;
  a handle here counts from zero.
\<close>

record world =
  uploadedFile :: "string option"
  isAnalyzing :: bool
  showResults :: bool
  accountInfo :: "account_view option"
  monthlyData :: "month_view list"
  analytics :: "analytics_view option"
  error :: "string option"
  pollTimeoutRef :: "nat option"
  currentPdfIdRef :: "jsid option"
  timers :: "(nat \<times> nat \<times> int) list"
  nextHandle :: nat
  sessions :: "session list"
  sent :: "request list"

definition initial_world :: world where
  "initial_world =
     \<lparr> uploadedFile = None, isAnalyzing = False, showResults = False, accountInfo = None,
       monthlyData = [], analytics = None, error = None, pollTimeoutRef = None,
       currentPdfIdRef = None, timers = [], nextHandle = 0, sessions = [], sent = [] \<rparr>"

subsection \<open>Timers\<close>

definition clearTimeout :: "nat \<Rightarrow> world \<Rightarrow> world" where
  "clearTimeout h w = w\<lparr>timers := filter (\<lambda>t. fst t \<noteq> h) (timers w)\<rparr>"

definition clearPolling :: "world \<Rightarrow> world" where
  "clearPolling w =
     (case pollTimeoutRef w of
        Some h \<Rightarrow> (clearTimeout h w)\<lparr>pollTimeoutRef := None, currentPdfIdRef := None\<rparr>
      | None \<Rightarrow> w\<lparr>currentPdfIdRef := None\<rparr>)"

text \<open>\<^verbatim>\<open>pollTimeoutRef.current = setTimeout(pollForResults, delay)\<close> in session \<open>s\<close>.\<close>

definition schedule_poll :: "nat \<Rightarrow> int \<Rightarrow> world \<Rightarrow> world" where
  "schedule_poll s delay w =
     w\<lparr>timers := timers w @ [(nextHandle w, s, delay)],
       pollTimeoutRef := Some (nextHandle w),
       nextHandle := Suc (nextHandle w)\<rparr>"

definition find_timer :: "nat \<Rightarrow> world \<Rightarrow> (nat \<times> int) option" where
  "find_timer h w = map_of (timers w) h"

subsection \<open>Sessions\<close>

definition set_pc :: "nat \<Rightarrow> pc \<Rightarrow> world \<Rightarrow> world" where
  "set_pc s p w = w\<lparr>sessions := (sessions w)[s := (sessions w ! s)\<lparr>pc := p\<rparr>]\<rparr>"

definition at_pc :: "world \<Rightarrow> nat \<Rightarrow> pc \<Rightarrow> bool" where
  "at_pc w s p = (s < length (sessions w) \<and> pc (sessions w ! s) = p)"

definition job_of :: "world \<Rightarrow> nat \<Rightarrow> jsid option" where
  "job_of w s = (if s < length (sessions w) then pdfId (sessions w ! s) else None)"

subsection \<open>The timing constants\<close>

definition initialPollInterval :: int where
  "initialPollInterval = 60000"

definition backoffMultiplier :: rat where
  "backoffMultiplier = 3 / 2"

definition maxPollTime :: int where
  "maxPollTime = 10800000"

text \<open>\<^verbatim>\<open>Math.floor(pollInterval * backoffMultiplier)\<close>.\<close>

definition grow :: "int \<Rightarrow> int" where
  "grow i = \<lfloor>of_int i * backoffMultiplier\<rfloor>"

subsection \<open>Starting an upload\<close>

text \<open>The status of a response in a template literal.\<close>

fun string_of_nat :: "nat \<Rightarrow> string" where
  "string_of_nat n =
     (if n < 10 then [char_of (48 + n)]
      else string_of_nat (n div 10) @ [char_of (48 + n mod 10)])"

declare string_of_nat.simps [simp del]

text \<open>\<^verbatim>\<open>onDrop\<close> up to its upload request. The new session is the last of the list.\<close>

definition onDrop :: "string list \<Rightarrow> world \<Rightarrow> world" where
  "onDrop acceptedFiles w =
     (case acceptedFiles of
        [] \<Rightarrow> w
      | file # others \<Rightarrow>
          (clearPolling w)
            \<lparr>uploadedFile := Some file, isAnalyzing := True, error := None, showResults := False,
             sessions := sessions w
               @ [\<lparr>pdfId = None, pollInterval = 0, totalPollTime = 0, pc = Uploading\<rparr>],
             sent := sent w @ [PostUpload file]\<rparr>)"

text \<open>The outer \<^verbatim>\<open>catch\<close> of \<^verbatim>\<open>onDrop\<close>, in session \<open>s\<close>, with the message of what was
  thrown.\<close>

definition upload_catch :: "nat \<Rightarrow> string \<Rightarrow> world \<Rightarrow> world" where
  "upload_catch s msg w =
     clearPolling
       ((set_pc s Ended w)\<lparr>error := Some (''Network or server error: '' @ msg), isAnalyzing := False\<rparr>)"

text \<open>The early return of a failed upload, with the error it read or made up.\<close>

definition upload_refused :: "nat \<Rightarrow> string jfield \<Rightarrow> world \<Rightarrow> world" where
  "upload_refused s e w =
     (set_pc s Ended w)\<lparr>error := Some (or_text e ''Failed to upload PDF''), isAnalyzing := False\<rparr>"

text \<open>The identifier is stored, the closure variables are set and the first poll is
  scheduled.\<close>

definition start_polling :: "nat \<Rightarrow> jsid \<Rightarrow> world \<Rightarrow> world" where
  "start_polling s i w =
     schedule_poll s initialPollInterval
       (w\<lparr>currentPdfIdRef := Some i,
          sessions := (sessions w)
            [s := \<lparr>pdfId = Some i, pollInterval = initialPollInterval, totalPollTime = 0,
                   pc = Scheduled\<rparr>]\<rparr>)"

text \<open>\<^verbatim>\<open>onDrop\<close> from the response of its upload request on.\<close>

definition upload_settled :: "nat \<Rightarrow> upload_response \<Rightarrow> world \<Rightarrow> world" where
  "upload_settled s r w =
     (if \<not> at_pc w s Uploading then w
      else
        (case r of
           UploadRejected msg \<Rightarrow> upload_catch s msg w
         | UploadFailed status statusText body \<Rightarrow>
             (case body of
                ErrUndecodable \<Rightarrow>
                  upload_refused s
                    (Val (''Server error: '' @ string_of_nat status @ '' '' @ statusText)) w
              | ErrNull msg \<Rightarrow> upload_catch s msg w
              | ErrObj e \<Rightarrow> upload_refused s e w)
         | UploadOk body \<Rightarrow>
             (case body of
                OkUndecodable msg \<Rightarrow>
                  upload_catch s (''Failed to parse upload response: '' @ msg) w
              | OkNull msg \<Rightarrow> upload_catch s msg w
              | OkObj x \<Rightarrow>
                  (case x of
                     Val i \<Rightarrow>
                       if truthy_id x then start_polling s i w
                       else upload_catch s ''No PDF ID returned from server'' w
                   | Null \<Rightarrow> upload_catch s ''No PDF ID returned from server'' w
                   | Absent \<Rightarrow> upload_catch s ''No PDF ID returned from server'' w))))"

subsection \<open>Polling\<close>

text \<open>\<^verbatim>\<open>currentPdfIdRef.current !== pdfId\<close> in session \<open>s\<close>.\<close>

definition stale :: "world \<Rightarrow> nat \<Rightarrow> bool" where
  "stale w s = (currentPdfIdRef w \<noteq> job_of w s)"

text \<open>A return of \<^verbatim>\<open>pollForResults\<close> that touches nothing.\<close>

definition poll_return :: "nat \<Rightarrow> world \<Rightarrow> world" where
  "poll_return s w = set_pc s Ended w"

text \<open>The \<^verbatim>\<open>catch\<close> of \<^verbatim>\<open>pollForResults\<close>.\<close>

definition poll_catch :: "nat \<Rightarrow> string \<Rightarrow> world \<Rightarrow> world" where
  "poll_catch s msg w =
     (if stale w s then poll_return s w
      else clearPolling
             ((set_pc s Ended w)
                \<lparr>error := Some (''Error checking processing status: '' @ msg),
                 isAnalyzing := False\<rparr>))"

text \<open>\<^verbatim>\<open>pollForResults\<close> from its start to the results request.\<close>

definition poll_enter :: "nat \<Rightarrow> world \<Rightarrow> world" where
  "poll_enter s w =
     (case job_of w s of
        None \<Rightarrow> w
      | Some i \<Rightarrow>
          if stale w s then poll_return s w
          else (set_pc s Fetching w)\<lparr>sent := sent w @ [GetResults i]\<rparr>)"

text \<open>A timer fires: the browser forgets it and runs its callback.\<close>

definition timer_fired :: "nat \<Rightarrow> world \<Rightarrow> world" where
  "timer_fired h w =
     (case find_timer h w of
        None \<Rightarrow> w
      | Some t \<Rightarrow> poll_enter (fst t) (clearTimeout h w))"

text \<open>From the response of the results request to the reading of its body.\<close>

definition results_fetched :: "nat \<Rightarrow> fetch_result \<Rightarrow> world \<Rightarrow> world" where
  "results_fetched s r w =
     (if \<not> at_pc w s Fetching then w
      else
        (case r of
           FetchRejected msg \<Rightarrow> poll_catch s msg w
         | FetchResponse ok \<Rightarrow>
             if \<not> ok then poll_catch s ''Failed to fetch processing status'' w
             else set_pc s Decoding w))"

text \<open>The branch of a \<^verbatim>\<open>processing\<close> answer.\<close>

definition on_processing :: "nat \<Rightarrow> jsid \<Rightarrow> world \<Rightarrow> world" where
  "on_processing s i w =
     (let c = sessions w ! s;
          total = totalPollTime c + pollInterval c
      in if total \<ge> maxPollTime then
           w\<lparr>sessions := (sessions w)[s := c\<lparr>totalPollTime := total, pc := Stopping\<rparr>],
             sent := sent w @ [PostStop i]\<rparr>
         else
           (schedule_poll s (pollInterval c) w)
             \<lparr>sessions := (sessions w)
                [s := c\<lparr>totalPollTime := total, pollInterval := grow (pollInterval c),
                        pc := Scheduled\<rparr>]\<rparr>)"

text \<open>The branch of a \<^verbatim>\<open>completed\<close> answer.\<close>

definition on_completed :: "nat \<Rightarrow> results_json \<Rightarrow> world \<Rightarrow> world" where
  "on_completed s d w =
     (let w1 = w\<lparr>accountInfo :=
                  Some (mapAccountInfo
                          (case res_account_info d of
                             Val a \<Rightarrow> a
                           | Null \<Rightarrow> empty_account_info
                           | Absent \<Rightarrow> empty_account_info))\<rparr>
      in case mappedMonthlyData (res_monthly_analysis d) of
           None \<Rightarrow> poll_catch s ''Error processing monthly data'' w1
         | Some months \<Rightarrow>
             clearPolling
               ((set_pc s Ended w1)
                  \<lparr>monthlyData := months,
                   analytics := Some (mappedAnalytics (res_analytics d)),
                   isAnalyzing := False,
                   showResults := True\<rparr>))"

text \<open>From the body of the results response on.\<close>

definition results_decoded :: "nat \<Rightarrow> results_body \<Rightarrow> world \<Rightarrow> world" where
  "results_decoded s b w =
     (if \<not> at_pc w s Decoding then w
      else
        (case job_of w s of
           None \<Rightarrow> w
         | Some i \<Rightarrow>
             (case b of
                ResUndecodable msg \<Rightarrow> poll_catch s msg w
              | ResNull msg \<Rightarrow> if stale w s then poll_return s w else poll_catch s msg w
              | ResObj d \<Rightarrow>
                  if stale w s then poll_return s w
                  else
                    (case res_status d of
                       StatusError \<Rightarrow>
                         clearPolling
                           ((set_pc s Ended w)
                              \<lparr>error := Some (or_text (res_error d) ''Error processing PDF''),
                               isAnalyzing := False\<rparr>)
                     | StatusProcessing \<Rightarrow> on_processing s i w
                     | StatusCompleted \<Rightarrow> on_completed s d w
                     | StatusOther \<Rightarrow> poll_return s w))))"

text \<open>The stop request settles; resolved or rejected, the timeout is thrown.\<close>

definition stop_settled :: "nat \<Rightarrow> bool \<Rightarrow> world \<Rightarrow> world" where
  "stop_settled s resolved w =
     (if \<not> at_pc w s Stopping then w
      else poll_catch s ''Processing timeout. Please try again later.'' w)"

subsection \<open>Executions\<close>

text \<open>
  What the event loop runs, one piece at a time: a drop of files, and the continuation of
  a session at the point where it is suspended.
\<close>

datatype event =
    Drop "string list"
  | UploadSettled nat upload_response
  | TimerFired nat
  | ResultsFetched nat fetch_result
  | ResultsDecoded nat results_body
  | StopSettled nat bool

definition step :: "event \<Rightarrow> world \<Rightarrow> world" where
  "step e w =
     (case e of
        Drop acceptedFiles \<Rightarrow> onDrop acceptedFiles w
      | UploadSettled s r \<Rightarrow> upload_settled s r w
      | TimerFired h \<Rightarrow> timer_fired h w
      | ResultsFetched s r \<Rightarrow> results_fetched s r w
      | ResultsDecoded s b \<Rightarrow> results_decoded s b w
      | StopSettled s resolved \<Rightarrow> stop_settled s resolved w)"

fun run :: "event list \<Rightarrow> world \<Rightarrow> world" where
  "run [] w = w"
| "run (e # es) w = run es (step e w)"

section \<open>Sample values\<close>

text \<open>A statistics record with every property, one with none, and analytics with none.\<close>

definition stats0 :: stats_json where
  "stats0 =
     \<lparr> stats_opening_balance = Val 15750, stats_closing_balance = Val 16200,
       total_credit = Val 8500, total_debit = Val (- 8050), net_change = Val 450,
       stats_fluctuation = Val 1200, international_inward_count = Val 7,
       international_outward_count = Val 5, international_inward_total = Val 1400,
       international_outward_total = Val 1000, minimum_balance = Val 14800 \<rparr>"

definition empty_stats :: stats_json where
  "empty_stats =
     \<lparr> stats_opening_balance = Absent, stats_closing_balance = Absent,
       total_credit = Absent, total_debit = Absent, net_change = Absent,
       stats_fluctuation = Absent, international_inward_count = Absent,
       international_outward_count = Absent, international_inward_total = Absent,
       international_outward_total = Absent, minimum_balance = Absent \<rparr>"

definition empty_analytics :: analytics_json where
  "empty_analytics =
     \<lparr> average_fluctuation = Absent, net_cash_flow_stability = Absent,
       total_foreign_transactions = Absent, total_foreign_amount = Absent,
       overdraft_frequency = Absent, overdraft_total_days = Absent,
       sum_total_inflow = Absent, sum_total_outflow = Absent, avg_total_inflow = Absent,
       avg_total_outflow = Absent \<rparr>"




section \<open>Notions the properties of the controller speak of\<close>

text \<open>What the user can observe.\<close>

definition view ::
  "world \<Rightarrow> string option \<times> bool \<times> account_view option \<times> month_view list
            \<times> analytics_view option \<times> bool" where
  "view w = (error w, isAnalyzing w, accountInfo w, monthlyData w, analytics w, showResults w)"

text \<open>The pending timers whose callback belongs to session \<open>s\<close>.\<close>

definition timers_of :: "world \<Rightarrow> nat \<Rightarrow> (nat \<times> nat \<times> int) list" where
  "timers_of w s = filter (\<lambda>t. fst (snd t) = s) (timers w)"

text \<open>The session whose \<^verbatim>\<open>pollForResults\<close> an event starts or resumes.\<close>

definition poll_session :: "world \<Rightarrow> event \<Rightarrow> nat option" where
  "poll_session w e =
     (case e of
        Drop acceptedFiles \<Rightarrow> None
      | UploadSettled s r \<Rightarrow> None
      | TimerFired h \<Rightarrow> map_option fst (find_timer h w)
      | ResultsFetched s r \<Rightarrow> Some s
      | ResultsDecoded s b \<Rightarrow> Some s
      | StopSettled s resolved \<Rightarrow> Some s)"

text \<open>The event hands the identifier \<open>j\<close> to an upload.\<close>

definition delivers :: "jsid \<Rightarrow> event \<Rightarrow> bool" where
  "delivers j e =
     (case e of
        UploadSettled s r \<Rightarrow>
          (case r of
             UploadOk body \<Rightarrow>
               (case body of OkObj x \<Rightarrow> x = Val j | OkNull msg \<Rightarrow> False | OkUndecodable msg \<Rightarrow> False)
           | UploadFailed status statusText body \<Rightarrow> False
           | UploadRejected msg \<Rightarrow> False)
      | Drop acceptedFiles \<Rightarrow> False
      | TimerFired h \<Rightarrow> False
      | ResultsFetched s r \<Rightarrow> False
      | ResultsDecoded s b \<Rightarrow> False
      | StopSettled s resolved \<Rightarrow> False)"

text \<open>
  A step without effect: what the user sees and both refs stay as they are, no request is
  sent, and no timer is set (every pending timer was pending before, and no handle was
  handed out).
\<close>

definition inert :: "event \<Rightarrow> world \<Rightarrow> bool" where
  "inert e w =
     (view (step e w) = view w \<and>
      currentPdfIdRef (step e w) = currentPdfIdRef w \<and>
      pollTimeoutRef (step e w) = pollTimeoutRef w \<and>
      sent (step e w) = sent w \<and>
      nextHandle (step e w) = nextHandle w \<and>
      list_all (\<lambda>t. t \<in> set (timers w)) (timers (step e w)))"

text \<open>
  Along an execution, every step of a poll callback of job \<open>j\<close> is without effect.
\<close>

fun quiet :: "jsid \<Rightarrow> event list \<Rightarrow> world \<Rightarrow> bool" where
  "quiet j [] w = True"
| "quiet j (e # es) w =
     ((case poll_session w e of
         None \<Rightarrow> True
       | Some s \<Rightarrow> if job_of w s = Some j then inert e w else True)
      \<and> quiet j es (step e w))"

text \<open>Session \<open>s\<close> is the one the marker names.\<close>

definition active :: "world \<Rightarrow> nat \<Rightarrow> bool" where
  "active w s = (job_of w s \<noteq> None \<and> currentPdfIdRef w = job_of w s)"




text \<open>A results object that only says \<^verbatim>\<open>processing\<close>.\<close>

definition processing :: results_json where
  "processing =
     \<lparr> res_status = StatusProcessing, res_error = Absent, res_account_info = Absent,
       res_monthly_analysis = Absent, res_analytics = Absent \<rparr>"




text \<open>The world after the first upload of a fresh page has been given the identifier
  \<open>i\<close>.\<close>

definition uploaded :: "string \<Rightarrow> jsid \<Rightarrow> world" where
  "uploaded file i = run [Drop [file], UploadSettled 0 (UploadOk (OkObj (Val i)))] initial_world"

text \<open>A successful upload answers with neither \<^verbatim>\<open>null\<close> nor an identifier.\<close>

definition no_job_id :: "upload_ok_body \<Rightarrow> bool" where
  "no_job_id body =
     (case body of
        OkObj x \<Rightarrow> \<not> truthy_id x
      | OkNull msg \<Rightarrow> True
      | OkUndecodable msg \<Rightarrow> False)"

text \<open>A \<^verbatim>\<open>completed\<close> answer with one month and no analytics.\<close>

definition completed_sample :: results_json where
  "completed_sample =
     \<lparr> res_status = StatusCompleted, res_error = Absent, res_account_info = Absent,
       res_monthly_analysis = Val [(''Jan'', Val stats0)], res_analytics = Absent \<rparr>"

text \<open>A first upload with the identifier 1 whose first poll is waiting for its response.\<close>

definition first_poll_in_flight :: world where
  "first_poll_in_flight = run [TimerFired 0] (uploaded ''a.pdf'' (IdNum 1))"

text \<open>The state of a session that has been superseded or has ended: the marker does not
  name its job, it is past its upload, and it has no timer.\<close>

definition displaced :: "jsid \<Rightarrow> nat \<Rightarrow> world \<Rightarrow> bool" where
  "displaced j s w =
     (currentPdfIdRef w \<noteq> Some j \<and> job_of w s = Some j \<and> \<not> at_pc w s Uploading \<and>
      timers_of w s = [])"

section \<open>Executions from the fresh page\<close>





section \<open>The display model: properties\<close>

subsection \<open>Monthly statistics with every property\<close>




subsection \<open>Missing properties\<close>

lemma account_defaults:
  "(customer_name a = Absent \<longrightarrow> customerName (mapAccountInfo a) = []) \<and>
   (account_number a = Absent \<longrightarrow> accountNumber (mapAccountInfo a) = []) \<and>
   (iban_number a = Absent \<longrightarrow> ibanNumber (mapAccountInfo a) = []) \<and>
   (opening_balance a = Absent \<longrightarrow> openingBalance (mapAccountInfo a) = 0) \<and>
   (closing_balance a = Absent \<longrightarrow> closingBalance (mapAccountInfo a) = 0) \<and>
   (financial_period a = Absent \<longrightarrow> financialPeriod (mapAccountInfo a) = []) \<and>
   (pages_processed a = Absent \<longrightarrow> pagesProcessed (mapAccountInfo a) = 0) \<and>
   (total_transactions a = Absent \<longrightarrow> totalTransactions (mapAccountInfo a) = 0)"
  by (simp add: mapAccountInfo_def or_text_def or_num_def)

lemma month_defaults:
  "mapMonthlyStats m (Val s) \<noteq> None \<and>
   (stats_opening_balance s = Absent \<longrightarrow>
      map_option month_openingBalance (mapMonthlyStats m (Val s)) = Some 0) \<and>
   (stats_closing_balance s = Absent \<longrightarrow>
      map_option month_closingBalance (mapMonthlyStats m (Val s)) = Some 0) \<and>
   (total_credit s = Absent \<longrightarrow> map_option inflows (mapMonthlyStats m (Val s)) = Some 0) \<and>
   (total_debit s = Absent \<longrightarrow> map_option outflows (mapMonthlyStats m (Val s)) = Some 0) \<and>
   (net_change s = Absent \<longrightarrow> map_option netChange (mapMonthlyStats m (Val s)) = Some 0) \<and>
   (stats_fluctuation s = Absent \<longrightarrow>
      map_option fluctuation (mapMonthlyStats m (Val s)) = Some 0) \<and>
   (international_inward_count s = Absent \<longrightarrow>
      map_option foreignTxns (mapMonthlyStats m (Val s))
        = Some (0 + nullish (international_outward_count s) 0)) \<and>
   (international_outward_count s = Absent \<longrightarrow>
      map_option foreignTxns (mapMonthlyStats m (Val s))
        = Some (nullish (international_inward_count s) 0 + 0)) \<and>
   (international_inward_total s = Absent \<longrightarrow>
      map_option foreignAmount (mapMonthlyStats m (Val s))
        = Some (0 + nullish (international_outward_total s) 0)) \<and>
   (international_outward_total s = Absent \<longrightarrow>
      map_option foreignAmount (mapMonthlyStats m (Val s))
        = Some (nullish (international_inward_total s) 0 + 0)) \<and>
   (minimum_balance s = Absent \<longrightarrow> map_option minBalance (mapMonthlyStats m (Val s)) = Some 0)"
  by (simp add: mapMonthlyStats_def nullish_def)

lemma analytics_missing:
  "(average_fluctuation a = Absent \<longrightarrow>
      averageFluctuation (mappedAnalytics (Val a)) = Absent \<and>
      rendered_fixed (Some (mappedAnalytics (Val a))) averageFluctuation = Fallback) \<and>
   (net_cash_flow_stability a = Absent \<longrightarrow>
      netCashFlowStability (mappedAnalytics (Val a)) = Absent \<and>
      rendered_fixed (Some (mappedAnalytics (Val a))) netCashFlowStability = Fallback) \<and>
   (total_foreign_transactions a = Absent \<longrightarrow>
      totalForeignTransactions (mappedAnalytics (Val a)) = Absent \<and>
      rendered_number (Some (mappedAnalytics (Val a))) totalForeignTransactions = 0) \<and>
   (total_foreign_amount a = Absent \<longrightarrow>
      totalForeignAmount (mappedAnalytics (Val a)) = Absent \<and>
      rendered_number (Some (mappedAnalytics (Val a))) totalForeignAmount = 0) \<and>
   (overdraft_frequency a = Absent \<longrightarrow>
      overdraftFrequency (mappedAnalytics (Val a)) = Absent \<and>
      rendered_number (Some (mappedAnalytics (Val a))) overdraftFrequency = 0) \<and>
   (overdraft_total_days a = Absent \<longrightarrow>
      overdraftTotalDays (mappedAnalytics (Val a)) = Absent \<and>
      rendered_number (Some (mappedAnalytics (Val a))) overdraftTotalDays = 0) \<and>
   (sum_total_inflow a = Absent \<longrightarrow>
      view_sum_total_inflow (mappedAnalytics (Val a)) = Absent \<and>
      rendered_number (Some (mappedAnalytics (Val a))) view_sum_total_inflow = 0) \<and>
   (sum_total_outflow a = Absent \<longrightarrow>
      view_sum_total_outflow (mappedAnalytics (Val a)) = Absent \<and>
      rendered_number (Some (mappedAnalytics (Val a))) view_sum_total_outflow = 0) \<and>
   (avg_total_inflow a = Absent \<longrightarrow>
      view_avg_total_inflow (mappedAnalytics (Val a)) = Absent \<and>
      rendered_number (Some (mappedAnalytics (Val a))) view_avg_total_inflow = 0) \<and>
   (avg_total_outflow a = Absent \<longrightarrow>
      view_avg_total_outflow (mappedAnalytics (Val a)) = Absent \<and>
      rendered_number (Some (mappedAnalytics (Val a))) view_avg_total_outflow = 0)"
  by (simp add: mappedAnalytics_def opt_chain_def rendered_number_def rendered_fixed_def
      or_num_def)

lemma missing_objects:
  "mapAccountInfo empty_account_info =
     \<lparr> customerName = [], accountNumber = [], ibanNumber = [], openingBalance = 0,
       closingBalance = 0, financialPeriod = [], pagesProcessed = 0, totalTransactions = 0 \<rparr> \<and>
   mappedMonthlyData Absent = Some [] \<and>
   mappedAnalytics Absent = mappedAnalytics (Val empty_analytics)"
  by (simp add: mapAccountInfo_def empty_account_info_def or_text_def or_num_def
      mappedMonthlyData_def mappedAnalytics_def opt_chain_def empty_analytics_def)

text \<open>
  Claim C5, as it is written, gives every field of the display model the default 0 or the
  empty text when its property is missing, the analytics included. The analytics of the
  display model are copied with \<^verbatim>\<open>?.\<close> and no default: a missing property leaves the
  field missing, which is not the number 0.
\<close>

theorem analytics_default_counterexample:
  "averageFluctuation (mappedAnalytics (Val empty_analytics)) = Absent \<and>
   averageFluctuation (mappedAnalytics (Val empty_analytics)) \<noteq> Val 0 \<and>
   view_sum_total_inflow (mappedAnalytics Absent) \<noteq> Val 0"
  by (simp add: mappedAnalytics_def opt_chain_def empty_analytics_def)

text \<open>
  Claim C5, amended. A missing property never makes the mapping of a present object fail.
  A missing property of the account information gives the empty text or 0 in the display
  model; a missing property of a month gives 0, and counts as 0 in a sum; a missing
  \<^verbatim>\<open>account_info\<close> or \<^verbatim>\<open>monthly_analysis\<close> gives the defaults and no months. A missing
  property of the analytics stays missing in the display model: the results view puts 0,
  or the fallback text of the two percentage cards, in its place only when it renders.
\<close>

theorem missing_fields:
  "((customer_name acc = Absent \<longrightarrow> customerName (mapAccountInfo acc) = []) \<and>
    (account_number acc = Absent \<longrightarrow> accountNumber (mapAccountInfo acc) = []) \<and>
    (iban_number acc = Absent \<longrightarrow> ibanNumber (mapAccountInfo acc) = []) \<and>
    (opening_balance acc = Absent \<longrightarrow> openingBalance (mapAccountInfo acc) = 0) \<and>
    (closing_balance acc = Absent \<longrightarrow> closingBalance (mapAccountInfo acc) = 0) \<and>
    (financial_period acc = Absent \<longrightarrow> financialPeriod (mapAccountInfo acc) = []) \<and>
    (pages_processed acc = Absent \<longrightarrow> pagesProcessed (mapAccountInfo acc) = 0) \<and>
    (total_transactions acc = Absent \<longrightarrow> totalTransactions (mapAccountInfo acc) = 0)) \<and>
   (mapMonthlyStats m (Val s) \<noteq> None \<and>
    (stats_opening_balance s = Absent \<longrightarrow>
       map_option month_openingBalance (mapMonthlyStats m (Val s)) = Some 0) \<and>
    (stats_closing_balance s = Absent \<longrightarrow>
       map_option month_closingBalance (mapMonthlyStats m (Val s)) = Some 0) \<and>
    (total_credit s = Absent \<longrightarrow> map_option inflows (mapMonthlyStats m (Val s)) = Some 0) \<and>
    (total_debit s = Absent \<longrightarrow> map_option outflows (mapMonthlyStats m (Val s)) = Some 0) \<and>
    (net_change s = Absent \<longrightarrow> map_option netChange (mapMonthlyStats m (Val s)) = Some 0) \<and>
    (stats_fluctuation s = Absent \<longrightarrow>
       map_option fluctuation (mapMonthlyStats m (Val s)) = Some 0) \<and>
    (international_inward_count s = Absent \<longrightarrow>
       map_option foreignTxns (mapMonthlyStats m (Val s))
         = Some (0 + nullish (international_outward_count s) 0)) \<and>
    (international_outward_count s = Absent \<longrightarrow>
       map_option foreignTxns (mapMonthlyStats m (Val s))
         = Some (nullish (international_inward_count s) 0 + 0)) \<and>
    (international_inward_total s = Absent \<longrightarrow>
       map_option foreignAmount (mapMonthlyStats m (Val s))
         = Some (0 + nullish (international_outward_total s) 0)) \<and>
    (international_outward_total s = Absent \<longrightarrow>
       map_option foreignAmount (mapMonthlyStats m (Val s))
         = Some (nullish (international_inward_total s) 0 + 0)) \<and>
    (minimum_balance s = Absent \<longrightarrow>
       map_option minBalance (mapMonthlyStats m (Val s)) = Some 0)) \<and>
   ((average_fluctuation a = Absent \<longrightarrow>
       averageFluctuation (mappedAnalytics (Val a)) = Absent \<and>
       rendered_fixed (Some (mappedAnalytics (Val a))) averageFluctuation = Fallback) \<and>
    (net_cash_flow_stability a = Absent \<longrightarrow>
       netCashFlowStability (mappedAnalytics (Val a)) = Absent \<and>
       rendered_fixed (Some (mappedAnalytics (Val a))) netCashFlowStability = Fallback) \<and>
    (total_foreign_transactions a = Absent \<longrightarrow>
       totalForeignTransactions (mappedAnalytics (Val a)) = Absent \<and>
       rendered_number (Some (mappedAnalytics (Val a))) totalForeignTransactions = 0) \<and>
    (total_foreign_amount a = Absent \<longrightarrow>
       totalForeignAmount (mappedAnalytics (Val a)) = Absent \<and>
       rendered_number (Some (mappedAnalytics (Val a))) totalForeignAmount = 0) \<and>
    (overdraft_frequency a = Absent \<longrightarrow>
       overdraftFrequency (mappedAnalytics (Val a)) = Absent \<and>
       rendered_number (Some (mappedAnalytics (Val a))) overdraftFrequency = 0) \<and>
    (overdraft_total_days a = Absent \<longrightarrow>
       overdraftTotalDays (mappedAnalytics (Val a)) = Absent \<and>
       rendered_number (Some (mappedAnalytics (Val a))) overdraftTotalDays = 0) \<and>
    (sum_total_inflow a = Absent \<longrightarrow>
       view_sum_total_inflow (mappedAnalytics (Val a)) = Absent \<and>
       rendered_number (Some (mappedAnalytics (Val a))) view_sum_total_inflow = 0) \<and>
    (sum_total_outflow a = Absent \<longrightarrow>
       view_sum_total_outflow (mappedAnalytics (Val a)) = Absent \<and>
       rendered_number (Some (mappedAnalytics (Val a))) view_sum_total_outflow = 0) \<and>
    (avg_total_inflow a = Absent \<longrightarrow>
       view_avg_total_inflow (mappedAnalytics (Val a)) = Absent \<and>
       rendered_number (Some (mappedAnalytics (Val a))) view_avg_total_inflow = 0) \<and>
    (avg_total_outflow a = Absent \<longrightarrow>
       view_avg_total_outflow (mappedAnalytics (Val a)) = Absent \<and>
       rendered_number (Some (mappedAnalytics (Val a))) view_avg_total_outflow = 0)) \<and>
   (mapAccountInfo empty_account_info =
      \<lparr> customerName = [], accountNumber = [], ibanNumber = [], openingBalance = 0,
        closingBalance = 0, financialPeriod = [], pagesProcessed = 0, totalTransactions = 0 \<rparr> \<and>
    mappedMonthlyData Absent = Some [] \<and>
    mappedAnalytics Absent = mappedAnalytics (Val empty_analytics))"
  by (rule conjI[OF account_defaults conjI[OF month_defaults
          conjI[OF analytics_missing missing_objects]]])

theorem missing_fields_witness:
  "mapAccountInfo empty_account_info =
     \<lparr> customerName = [], accountNumber = [], ibanNumber = [], openingBalance = 0,
       closingBalance = 0, financialPeriod = [], pagesProcessed = 0, totalTransactions = 0 \<rparr> \<and>
   mapMonthlyStats ''Jan'' (Val empty_stats) =
     Some \<lparr> month = ''Jan'', month_openingBalance = 0, month_closingBalance = 0, inflows = 0,
            outflows = 0, netChange = 0, fluctuation = 0, foreignTxns = 0, foreignAmount = 0,
            minBalance = 0 \<rparr> \<and>
   averageFluctuation (mappedAnalytics (Val empty_analytics)) = Absent \<and>
   rendered_fixed (Some (mappedAnalytics (Val empty_analytics))) averageFluctuation = Fallback \<and>
   totalForeignAmount (mappedAnalytics (Val empty_analytics)) = Absent \<and>
   rendered_number (Some (mappedAnalytics (Val empty_analytics))) totalForeignAmount = 0"
  using missing_fields[of empty_account_info "''Jan''" empty_stats empty_analytics]
  by (simp add: empty_account_info_def empty_stats_def empty_analytics_def
      mapMonthlyStats_def nullish_def)

section \<open>The passcode input: properties\<close>

lemma filled_cells_digits:
  "list_all cell_ok vs \<Longrightarrow> filled vs \<Longrightarrow>
     length (concat vs) = length vs \<and> list_all is_digit (concat vs)"
proof (induction vs)
  case Nil
  then show ?case by simp
next
  case (Cons v vs)
  from Cons.prems obtain c where "v = [c]" "is_digit c"
    by (auto simp: cell_ok_def filled_def single_digit_def split: list.splits)
  with Cons show ?case by (simp add: filled_def)
qed

lemma cells_ok_update:
  "cells_ok len vs \<Longrightarrow> cell_ok v \<Longrightarrow> cells_ok len (vs[i := v])"
  by (auto simp: cells_ok_def list_all_iff dest: set_update_subset_insert[THEN subsetD])

lemma cell_ok_empty: "cell_ok []"
  by (simp add: cell_ok_def)

lemma handleChange_ok:
  assumes "cells_ok len vs" and "handleChange len d vs i v = (nv, call)"
  shows "cells_ok len nv"
    and "d \<or> (v \<noteq> [] \<and> \<not> single_digit v) \<Longrightarrow> nv = vs \<and> call = None"
    and "\<not> (d \<or> (v \<noteq> [] \<and> \<not> single_digit v)) \<Longrightarrow>
           call = (if filled nv then Some (concat nv) else None)"
proof -
  show "cells_ok len nv"
    using assms by (auto simp: handleChange_def Let_def cell_ok_def intro!: cells_ok_update split: if_splits)
  show "d \<or> (v \<noteq> [] \<and> \<not> single_digit v) \<Longrightarrow> nv = vs \<and> call = None"
    using assms by (auto simp: handleChange_def split: if_splits)
  assume acc: "\<not> (d \<or> (v \<noteq> [] \<and> \<not> single_digit v))"
  then have nv: "nv = vs[i := v]" and c: "call = (if complete len nv then Some (concat nv) else None)"
    using assms(2) by (auto simp: handleChange_def Let_def)
  have ok: "cells_ok len nv"
    using acc assms(1) nv by (auto simp: cell_ok_def intro!: cells_ok_update)
  have "complete len nv = filled nv"
    using filled_cells_digits[of nv] ok by (auto simp: complete_def filled_def cells_ok_def)
  with c show "call = (if filled nv then Some (concat nv) else None)" by simp
qed

lemma handleKeyDown_ok:
  assumes "cells_ok len vs"
  shows "cells_ok len (handleKeyDown d vs i k)"
    and "d \<or> k \<noteq> Backspace \<Longrightarrow> handleKeyDown d vs i k = vs"
    and "\<not> (d \<or> k \<noteq> Backspace) \<Longrightarrow> i < len \<Longrightarrow> \<not> filled (handleKeyDown d vs i k)"
proof -
  show "cells_ok len (handleKeyDown d vs i k)"
    using assms by (auto simp: handleKeyDown_def cell_ok_empty intro!: cells_ok_update)
  show "d \<or> k \<noteq> Backspace \<Longrightarrow> handleKeyDown d vs i k = vs"
    by (auto simp: handleKeyDown_def)
  assume a: "\<not> (d \<or> k \<noteq> Backspace)" and i: "i < len"
  have len: "length vs = len" using assms by (simp add: cells_ok_def)
  have "handleKeyDown d vs i k ! i = []"
    using a i len by (auto simp: handleKeyDown_def)
  moreover have "length (handleKeyDown d vs i k) = len"
    using len by (auto simp: handleKeyDown_def)
  ultimately show "\<not> filled (handleKeyDown d vs i k)"
    using i by (auto simp: filled_def list_all_length)
qed

lemma pasted_cells:
  "list_all is_digit p \<Longrightarrow> list_all cell_ok (map (\<lambda>c. [c]) p)"
  by (induction p) (auto simp: cell_ok_def single_digit_def)

lemma handlePaste_ok:
  assumes "cells_ok len vs" and "handlePaste len d vs t = (nv, call)"
  shows "cells_ok len nv"
    and "d \<or> \<not> all_digits (take len t) \<Longrightarrow> nv = vs \<and> call = None"
    and "\<not> (d \<or> \<not> all_digits (take len t)) \<Longrightarrow>
           call = (if filled nv then Some (concat nv) else None)"
proof -
  show "d \<or> \<not> all_digits (take len t) \<Longrightarrow> nv = vs \<and> call = None"
    using assms by (auto simp: handlePaste_def Let_def split: if_splits)
  show "cells_ok len nv"
    using assms
    by (auto simp: handlePaste_def Let_def cells_ok_def all_digits_def cell_ok_empty
          list_all_iff pasted_cells[unfolded list_all_iff] split: if_splits)
  assume acc: "\<not> (d \<or> \<not> all_digits (take len t))"
  define p where "p = take len t"
  have nv: "nv = map (\<lambda>c. [c]) p @ replicate (len - length p) []"
    and c: "call = (if length p = len then Some p else None)"
    using acc assms(2) by (auto simp: handlePaste_def Let_def p_def)
  have le: "length p \<le> len" by (simp add: p_def)
  have cc: "concat (map (\<lambda>c. [c]) p) = p" by (induction p) auto
  have f1: "filled (map (\<lambda>c. [c]) p)" by (induction p) (auto simp: filled_def)
  have f2: "list_all (\<lambda>v. v \<noteq> []) (replicate n ([]::string)) = (n = 0)" for n
    by (cases n) auto
  have "filled nv = (length p = len)"
    using le f1 by (auto simp: nv filled_def f2)
  moreover have "length p = len \<Longrightarrow> concat nv = p"
    by (simp add: nv cc)
  ultimately show "call = (if filled nv then Some (concat nv) else None)"
    using c by auto
qed

lemma interact_ok:
  assumes "cells_ok len vs" and "in_range len a" and "interact len a vs = (nv, call)"
  shows "cells_ok len nv \<and> (rejected len a \<longrightarrow> nv = vs \<and> call = None) \<and>
        (\<not> rejected len a \<longrightarrow> call = (if filled nv then Some (concat nv) else None))"
proof -
  obtain d x where a: "a = (d, x)" by (cases a)
  show ?thesis
  proof (cases x)
    case (Change i v)
    have h: "handleChange len d vs i v = (nv, call)"
      using assms(3) unfolding a Change by (simp add: interact_def)
    have r: "rejected len a = (d \<or> (v \<noteq> [] \<and> \<not> single_digit v))"
      unfolding a Change by (simp add: rejected_def)
    show ?thesis
      using handleChange_ok[OF assms(1) h] unfolding r by blast
  next
    case (KeyDown i k)
    have h: "nv = handleKeyDown d vs i k" "call = None"
      using assms(3) unfolding a KeyDown by (simp_all add: interact_def)
    have r: "rejected len a = (d \<or> k \<noteq> Backspace)"
      unfolding a KeyDown  by (simp add: rejected_def)
    have i: "i < len"
      using assms(2) unfolding a KeyDown by (simp add: in_range_def)
    show ?thesis
      using handleKeyDown_ok[OF assms(1), where d = d and i = i and k = k] i unfolding r h by auto
  next
    case (Paste t)
    have h: "handlePaste len d vs t = (nv, call)"
      using assms(3) unfolding a Paste by (simp add: interact_def)
    have r: "rejected len a = (d \<or> \<not> all_digits (take len t))"
      unfolding a Paste by (simp add: rejected_def)
    show ?thesis
      using handlePaste_ok[OF assms(1) h] unfolding r by blast
  qed
qed

lemma interactions_ok:
  "list_all (in_range len) as \<Longrightarrow> cells_ok len vs \<Longrightarrow> cells_ok len (fst (interactions len as vs))"
proof (induction as arbitrary: vs)
  case Nil
  then show ?case by simp
next
  case (Cons a as)
  obtain nv call where i: "interact len a vs = (nv, call)" by (cases "interact len a vs")
  have "in_range len a" using Cons.prems(1) by simp
  then have "cells_ok len nv" using interact_ok[OF Cons.prems(2) _ i] by simp
  then have "cells_ok len (fst (interactions len as nv))" using Cons by simp
  then show ?case by (auto simp: i split: prod.splits)
qed

lemma initial_cells_ok: "cells_ok len (replicate len [])"
  by (simp add: cells_ok_def cell_ok_def list_all_iff)

text \<open>
  Claim C10. Take any sequence of interactions (changes, key presses, pastes, each at an
  index below \<^verbatim>\<open>length\<close> and with the value of \<^verbatim>\<open>disabled\<close> at its moment) from
  the empty cells, and one more interaction after it. Then there are still \<^verbatim>\<open>length\<close>
  cells, each empty or one digit; an interaction that is turned down (any input while
  disabled, a change to a non-digit, a paste of non-digits, a key other than backspace)
  leaves the cells as they were and does not call \<^verbatim>\<open>onComplete\<close>; every other interaction
  calls \<^verbatim>\<open>onComplete\<close> exactly when all cells are filled after it, with the cells joined;
  and every argument of \<^verbatim>\<open>onComplete\<close> is \<^verbatim>\<open>length\<close> digits.
\<close>

theorem passcode_cells_and_completion:
  assumes "list_all (in_range len) (pre @ [a])"
    and "values = fst (interactions len pre (replicate len []))"
    and "interact len a values = (newValues, call)"
  shows "length newValues = len \<and> list_all cell_ok newValues \<and>
         (rejected len a \<longrightarrow> newValues = values \<and> call = None) \<and>
         (\<not> rejected len a \<longrightarrow> call = (if filled newValues then Some (concat newValues) else None)) \<and>
         (call = Some c \<longrightarrow> length c = len \<and> list_all is_digit c)"
proof -
  have pre: "list_all (in_range len) pre" and a: "in_range len a"
    using assms(1) by simp_all
  have ok: "cells_ok len values"
    using interactions_ok[OF pre initial_cells_ok] assms(2) by simp
  note io = interact_ok[OF ok a assms(3)]
  have d: "call = Some c \<longrightarrow> length c = len \<and> list_all is_digit c"
  proof
    assume c: "call = Some c"
    then have nr: "\<not> rejected len a" using io by auto
    with io c have "filled newValues" "c = concat newValues"
      by (auto split: if_splits)
    then show "length c = len \<and> list_all is_digit c"
      using filled_cells_digits[of newValues] io by (simp add: cells_ok_def)
  qed
  show ?thesis using io d by (simp add: cells_ok_def)
qed

theorem passcode_cells_and_completion_witness:
  "list_all (in_range 6)
     ([(False, Paste ''12345''), (False, Change 2 ''x''), (True, Change 2 ''9''),
       (False, KeyDown 4 Backspace)] @ [(False, Change 5 ''6'')]) \<and>
   interact 6 (False, Change 5 ''6'')
     (fst (interactions 6
        [(False, Paste ''12345''), (False, Change 2 ''x''), (True, Change 2 ''9''),
         (False, KeyDown 4 Backspace)] (replicate 6 [])))
     = ([''1'', ''2'', ''3'', ''4'', [], ''6''], None) \<and>
   \<not> rejected 6 (False, Change 5 ''6'') \<and>
   \<not> filled [''1'', ''2'', ''3'', ''4'', [], ''6''] \<and>
   list_all cell_ok [''1'', ''2'', ''3'', ''4'', [], ''6'']"
proof -
  let ?pre = "[(False, Paste ''12345''), (False, Change 2 ''x''), (True, Change 2 ''9''),
               (False, KeyDown 4 Backspace)]"
  have h1: "list_all (in_range 6) (?pre @ [(False, Change 5 ''6'')])"
    by (simp add: in_range_def)
  have h3: "interact 6 (False, Change 5 ''6'') (fst (interactions 6 ?pre (replicate 6 [])))
              = ([''1'', ''2'', ''3'', ''4'', [], ''6''], None)"
    by code_simp
  have r: "\<not> rejected 6 (False, Change 5 ''6'')"
    by (simp add: rejected_def single_digit_def is_digit_def)
  have f: "\<not> filled [''1'', ''2'', ''3'', ''4'', [], ''6'']"
    by (simp add: filled_def)
  have c: "list_all cell_ok [''1'', ''2'', ''3'', ''4'', [], ''6'']"
    by (rule conjunct1[OF conjunct2[OF passcode_cells_and_completion[OF h1 refl h3, of "[]"]]])
  show ?thesis
    by (intro conjI h1 h3 r f c)
qed

lemma passcode_completed_example:
  "interact 6 (False, Change 5 ''6'')
     (fst (interactions 6 [(False, Paste ''12345'')] (replicate 6 [])))
     = ([''1'', ''2'', ''3'', ''4'', ''5'', ''6''], Some ''123456'')"
  by code_simp

section \<open>The lockout of the login page: properties\<close>









section \<open>The upload and poll controller: properties\<close>

lemma or_text_Cons: "or_text (Val (c # t)) d = c # t"
  by (simp add: or_text_def)

lemmas ctl_defs = step_def onDrop_def upload_settled_def upload_catch_def upload_refused_def
  start_polling_def schedule_poll_def clearPolling_def clearTimeout_def set_pc_def at_pc_def
  job_of_def stale_def poll_return_def poll_catch_def poll_enter_def timer_fired_def
  find_timer_def results_fetched_def on_processing_def on_completed_def results_decoded_def
  stop_settled_def timers_of_def

subsection \<open>The interval\<close>

lemma grow_eq: "grow i = (3 * i) div 2"
proof -
  have "of_int i * backoffMultiplier = (of_int (3 * i) :: rat) / of_int 2"
    by (simp add: backoffMultiplier_def)
  then show ?thesis
    unfolding grow_def by (simp only: floor_divide_of_int_eq)
qed

lemma grow_gt: "2 \<le> i \<Longrightarrow> i < grow i"
  unfolding grow_eq by linarith

lemma grow_ge: "initialPollInterval \<le> i \<Longrightarrow> initialPollInterval \<le> grow i"
  unfolding grow_eq initialPollInterval_def by linarith

lemma grow_bounds: "2 * grow i \<le> 3 * i \<and> 3 * i - 1 \<le> 2 * grow i"
  unfolding grow_eq by linarith

lemma intervals_ge: "initialPollInterval \<le> (grow ^^ k) initialPollInterval"
  by (induction k) (simp_all add: grow_ge)

lemma intervals_increase: "(grow ^^ k) initialPollInterval < (grow ^^ Suc k) initialPollInterval"
proof -
  have "2 \<le> (grow ^^ k) initialPollInterval"
    using intervals_ge[of k] by (simp add: initialPollInterval_def)
  then show ?thesis by (simp add: grow_gt)
qed

subsection \<open>A session that has ended stays so\<close>

text \<open>
  A session that has ended and has no timer pending never runs again and never gets a
  timer, whatever happens later: its continuations are gone, and only its own code could
  set a timer for it.
\<close>

lemma ended_step:
  assumes "at_pc w s Ended" and "timers_of w s = []"
  shows "at_pc (step e w) s Ended \<and> timers_of (step e w) s = []"
proof (cases e)
  case (Drop fs)
  then show ?thesis using assms
    by (auto simp: ctl_defs nth_append filter_empty_conv split: list.splits option.splits)
next
  case (UploadSettled s' r)
  show ?thesis
  proof (cases "s' = s")
    case True
    then show ?thesis using assms UploadSettled by (simp add: step_def upload_settled_def at_pc_def)
  next
    case False
    then show ?thesis using assms UploadSettled
      by (auto simp: ctl_defs filter_empty_conv simp del: string_of_nat.simps
          split: upload_response.splits upload_error_body.splits upload_ok_body.splits
            jfield.splits option.splits)
  qed
next
  case (TimerFired h)
  show ?thesis
  proof (cases "map_of (timers w) h")
    case None
    then show ?thesis using assms TimerFired by (simp add: step_def timer_fired_def find_timer_def)
  next
    case (Some t)
    then have "(h, t) \<in> set (timers w)" by (rule map_of_SomeD)
    then have "fst t \<noteq> s" using assms(2) by (auto simp: timers_of_def filter_empty_conv)
    then show ?thesis using assms TimerFired Some
      by (auto simp: ctl_defs filter_empty_conv split: option.splits)
  qed
next
  case (ResultsFetched s' r)
  show ?thesis
  proof (cases "s' = s")
    case True
    then show ?thesis using assms ResultsFetched by (simp add: step_def results_fetched_def at_pc_def)
  next
    case False
    then show ?thesis using assms ResultsFetched
      by (auto simp: ctl_defs filter_empty_conv split: fetch_result.splits option.splits)
  qed
next
  case (ResultsDecoded s' b)
  show ?thesis
  proof (cases "s' = s")
    case True
    then show ?thesis using assms ResultsDecoded by (simp add: step_def results_decoded_def at_pc_def)
  next
    case False
    then show ?thesis using assms ResultsDecoded
      by (auto simp: ctl_defs Let_def filter_empty_conv
          split: results_body.splits option.splits status_json.splits)
  qed
next
  case (StopSettled s' b)
  show ?thesis
  proof (cases "s' = s")
    case True
    then show ?thesis using assms StopSettled by (simp add: step_def stop_settled_def at_pc_def)
  next
    case False
    then show ?thesis using assms StopSettled
      by (auto simp: ctl_defs filter_empty_conv split: option.splits)
  qed
qed

lemma ended_run:
  "at_pc w s Ended \<Longrightarrow> timers_of w s = [] \<Longrightarrow>
     at_pc (run es w) s Ended \<and> timers_of (run es w) s = []"
proof (induction es arbitrary: w)
  case Nil
  then show ?case by simp
next
  case (Cons e es)
  then show ?case using ended_step[of w s e] by simp
qed

subsection \<open>Uploads that fail\<close>

text \<open>
  Claim C6. An upload that is answered outside 2xx with a body that is not JSON shows the
  error made up from the status and the status text and ends the analysing state. It sends
  no request (no retry), sets no timer and leaves both refs alone; the session has ended, and
  whatever happens afterwards it stays ended and no poll is ever scheduled for it. (A session
  that is still uploading has set no timer: the second assumption.)
\<close>

theorem upload_undecodable_error:
  assumes "at_pc w s Uploading" and "timers_of w s = []"
    and "w' = step (UploadSettled s (UploadFailed status statusText ErrUndecodable)) w"
  shows "error w' = Some (''Server error: '' @ string_of_nat status @ '' '' @ statusText) \<and>
         isAnalyzing w' = False \<and> at_pc w' s Ended \<and>
         sent w' = sent w \<and> timers w' = timers w \<and> nextHandle w' = nextHandle w \<and>
         pollTimeoutRef w' = pollTimeoutRef w \<and> currentPdfIdRef w' = currentPdfIdRef w \<and>
         at_pc (run es w') s Ended \<and> timers_of (run es w') s = []"
proof -
  have now: "error w' = Some (''Server error: '' @ string_of_nat status @ '' '' @ statusText) \<and>
         isAnalyzing w' = False \<and> at_pc w' s Ended \<and>
         sent w' = sent w \<and> timers w' = timers w \<and> nextHandle w' = nextHandle w \<and>
         pollTimeoutRef w' = pollTimeoutRef w \<and> currentPdfIdRef w' = currentPdfIdRef w"
    using assms(1,3)
    by (simp add: step_def upload_settled_def upload_refused_def set_pc_def at_pc_def
        or_text_Cons del: string_of_nat.simps)
  then have "timers_of w' s = []"
    using assms(2) by (simp add: timers_of_def)
  with now have "at_pc (run es w') s Ended \<and> timers_of (run es w') s = []"
    using ended_run[of w' s es] by simp
  with now show ?thesis by simp
qed


lemma status_500: "string_of_nat 500 = ''500''"
  by code_simp

theorem upload_undecodable_error_witness:
  "at_pc (onDrop [''a.pdf''] initial_world) 0 Uploading \<and>
   timers_of (onDrop [''a.pdf''] initial_world) 0 = [] \<and>
   error (step (UploadSettled 0 (UploadFailed 500 ''Internal Server Error'' ErrUndecodable))
            (onDrop [''a.pdf''] initial_world))
     = Some ''Server error: 500 Internal Server Error'' \<and>
   isAnalyzing (step (UploadSettled 0 (UploadFailed 500 ''Internal Server Error'' ErrUndecodable))
                  (onDrop [''a.pdf''] initial_world)) = False \<and>
   timers (step (UploadSettled 0 (UploadFailed 500 ''Internal Server Error'' ErrUndecodable))
             (onDrop [''a.pdf''] initial_world)) = []"
proof -
  have h1: "at_pc (onDrop [''a.pdf''] initial_world) 0 Uploading"
    by code_simp
  have h2: "timers_of (onDrop [''a.pdf''] initial_world) 0 = []"
    by code_simp
  have h3: "timers (onDrop [''a.pdf''] initial_world) = []"
    by code_simp
  show ?thesis
    using upload_undecodable_error[OF h1 h2 refl, of 500 "''Internal Server Error''" "[]"] h1 h2
    by (simp add: status_500 h3)
qed

text \<open>
  Claim C7. An upload that is answered with 2xx and JSON that carries no identifier (the
  property is missing, null, 0 or empty, or the JSON is \<^verbatim>\<open>null\<close>) reports an error and ends
  the analysing state. It sends no request and sets no timer; the marker and the handle ref
  are null afterwards, so no new job is marked; the session has ended, and whatever happens
  afterwards it stays ended and no poll is ever scheduled for it.
\<close>

theorem upload_without_id:
  assumes "at_pc w s Uploading" and "timers_of w s = []"
    and "no_job_id body"
    and "w' = step (UploadSettled s (UploadOk body)) w"
  shows "error w' = Some (''Network or server error: ''
                          @ (case body of OkNull msg \<Rightarrow> msg | _ \<Rightarrow> ''No PDF ID returned from server'')) \<and>
         isAnalyzing w' = False \<and> at_pc w' s Ended \<and>
         currentPdfIdRef w' = None \<and> pollTimeoutRef w' = None \<and>
         sent w' = sent w \<and> nextHandle w' = nextHandle w \<and>
         list_all (\<lambda>t. t \<in> set (timers w)) (timers w') \<and>
         at_pc (run es w') s Ended \<and> timers_of (run es w') s = []"
proof -
  have now: "error w' = Some (''Network or server error: ''
                          @ (case body of OkNull msg \<Rightarrow> msg | _ \<Rightarrow> ''No PDF ID returned from server'')) \<and>
         isAnalyzing w' = False \<and> at_pc w' s Ended \<and>
         currentPdfIdRef w' = None \<and> pollTimeoutRef w' = None \<and>
         sent w' = sent w \<and> nextHandle w' = nextHandle w \<and>
         list_all (\<lambda>t. t \<in> set (timers w)) (timers w')"
    using assms(1,3,4)
    by (auto simp: step_def upload_settled_def upload_catch_def set_pc_def at_pc_def no_job_id_def
        clearPolling_def clearTimeout_def list_all_iff
        split: upload_ok_body.splits jfield.splits option.splits)
  then have "set (timers w') \<subseteq> set (timers w)"
    by (auto simp: list_all_iff)
  then have "timers_of w' s = []"
    using assms(2) by (auto simp: timers_of_def filter_empty_conv)
  with now have "at_pc (run es w') s Ended \<and> timers_of (run es w') s = []"
    using ended_run[of w' s es] by simp
  with now show ?thesis by simp
qed


theorem upload_without_id_witness:
  "at_pc (onDrop [''a.pdf''] initial_world) 0 Uploading \<and>
   timers_of (onDrop [''a.pdf''] initial_world) 0 = [] \<and>
   no_job_id (OkObj Absent) \<and>
   error (step (UploadSettled 0 (UploadOk (OkObj Absent))) (onDrop [''a.pdf''] initial_world))
     = Some ''Network or server error: No PDF ID returned from server'' \<and>
   isAnalyzing (step (UploadSettled 0 (UploadOk (OkObj Absent))) (onDrop [''a.pdf''] initial_world))
     = False \<and>
   currentPdfIdRef (step (UploadSettled 0 (UploadOk (OkObj Absent)))
                      (onDrop [''a.pdf''] initial_world)) = None"
proof -
  have h1: "at_pc (onDrop [''a.pdf''] initial_world) 0 Uploading"
    by code_simp
  have h2: "timers_of (onDrop [''a.pdf''] initial_world) 0 = []"
    by code_simp
  have h3: "no_job_id (OkObj Absent)"
    by code_simp
  show ?thesis
    using upload_without_id[OF h1 h2 h3 refl, of "[]"] h1 h2 h3
    by simp
qed

subsection \<open>A processing answer\<close>

text \<open>
  Claim C3. Let the active session read a \<^verbatim>\<open>processing\<close> answer that does not reach the
  budget. Then one timer is added, with the interval as it stands as its delay, and the
  handle ref holds it; only then the interval of the session becomes
  \<^verbatim>\<open>Math.floor(pollInterval * 1.5)\<close>, while the delay of the timer just set stays. Nothing the
  user sees changes and nothing is sent. The new interval is 1.5 times the old one up to the
  half millisecond the floor drops; it is greater than the old one from 2 ms on, and it stays
  at or above the initial 60000 ms, so every interval of a session, that is every delay set
  after a \<^verbatim>\<open>processing\<close> answer (60000, 90000, 135000, ...), is greater than the one
  before.
\<close>

theorem processing_schedules_then_grows:
  assumes "at_pc w s Decoding" and "active w s"
    and "c = sessions w ! s"
    and "totalPollTime c + pollInterval c < maxPollTime"
    and "res_status d = StatusProcessing"
    and "w' = step (ResultsDecoded s (ResObj d)) w"
  shows "timers w' = timers w @ [(nextHandle w, s, pollInterval c)] \<and>
         pollTimeoutRef w' = Some (nextHandle w) \<and>
         sessions w' ! s =
           c\<lparr>totalPollTime := totalPollTime c + pollInterval c,
             pollInterval := \<lfloor>of_int (pollInterval c) * backoffMultiplier\<rfloor>,
             pc := Scheduled\<rparr> \<and>
         view w' = view w \<and> sent w' = sent w \<and>
         2 * pollInterval (sessions w' ! s) \<le> 3 * pollInterval c \<and>
         3 * pollInterval c - 1 \<le> 2 * pollInterval (sessions w' ! s) \<and>
         (2 \<le> pollInterval c \<longrightarrow> pollInterval c < pollInterval (sessions w' ! s)) \<and>
         (initialPollInterval \<le> pollInterval c \<longrightarrow>
            initialPollInterval \<le> pollInterval (sessions w' ! s)) \<and>
         (grow ^^ k) initialPollInterval < (grow ^^ Suc k) initialPollInterval"
proof -
  have w': "w' = on_processing s (the (job_of w s)) w"
    using assms by (auto simp: step_def results_decoded_def active_def stale_def split: option.splits)
  have s: "s < length (sessions w)" using assms(1) by (simp add: at_pc_def)
  have 1: "timers w' = timers w @ [(nextHandle w, s, pollInterval c)]"
    and 2: "pollTimeoutRef w' = Some (nextHandle w)"
    and 3: "sessions w' ! s =
           c\<lparr>totalPollTime := totalPollTime c + pollInterval c,
             pollInterval := grow (pollInterval c), pc := Scheduled\<rparr>"
    and 4: "view w' = view w" and 5: "sent w' = sent w"
    using assms(3,4) s unfolding w'
    by (simp_all add: on_processing_def Let_def schedule_poll_def view_def)
  have 6: "pollInterval (sessions w' ! s) = grow (pollInterval c)"
    unfolding 3 by simp
  show ?thesis
    unfolding 6 using 1 2 3 4 5 grow_bounds[of "pollInterval c"] grow_gt[of "pollInterval c"]
      grow_ge[of "pollInterval c"] intervals_increase[of k]
    by (simp add: grow_def)
qed



theorem processing_schedules_then_grows_witness:
  "at_pc (run [TimerFired 0, ResultsFetched 0 (FetchResponse True)] (uploaded ''a.pdf'' (IdNum 7)))
     0 Decoding \<and>
   active (run [TimerFired 0, ResultsFetched 0 (FetchResponse True)] (uploaded ''a.pdf'' (IdNum 7))) 0 \<and>
   timers (step (ResultsDecoded 0 (ResObj processing))
             (run [TimerFired 0, ResultsFetched 0 (FetchResponse True)]
                (uploaded ''a.pdf'' (IdNum 7)))) = [(1, 0, 60000)] \<and>
   pollInterval
     (sessions (step (ResultsDecoded 0 (ResObj processing))
                  (run [TimerFired 0, ResultsFetched 0 (FetchResponse True)]
                     (uploaded ''a.pdf'' (IdNum 7)))) ! 0) = 90000"
proof -
  let ?w = "run [TimerFired 0, ResultsFetched 0 (FetchResponse True)] (uploaded ''a.pdf'' (IdNum 7))"
  have h1: "at_pc ?w 0 Decoding"
    by code_simp
  have h2: "active ?w 0"
    by code_simp
  have h4: "totalPollTime (sessions ?w ! 0) + pollInterval (sessions ?w ! 0) < maxPollTime"
    by code_simp
  have h5: "res_status processing = StatusProcessing"
    by code_simp
  have v: "timers ?w = []" "nextHandle ?w = 1" "pollInterval (sessions ?w ! 0) = 60000"
    by code_simp+
  have g: "\<lfloor>(60000::rat) * backoffMultiplier\<rfloor> = 90000"
    by (simp add: backoffMultiplier_def)
  show ?thesis
    using processing_schedules_then_grows[OF h1 h2 refl h4 h5 refl, of 0] h1 h2
    by (simp add: v g del: run.simps)
qed

subsection \<open>A server that always answers processing\<close>







subsection \<open>The guard\<close>

lemma marker_kept:
  assumes "currentPdfIdRef w \<noteq> Some j" and "\<not> delivers j e"
  shows "currentPdfIdRef (step e w) \<noteq> Some j"
proof (cases e)
  case (Drop fs)
  then show ?thesis using assms
    by (auto simp: step_def onDrop_def clearPolling_def clearTimeout_def split: list.splits option.splits)
next
  case (UploadSettled s r)
  then show ?thesis using assms
    by (auto simp: ctl_defs delivers_def
        split: upload_response.splits upload_error_body.splits upload_ok_body.splits
          jfield.splits option.splits if_splits)
next
  case (TimerFired h)
  then show ?thesis using assms
    by (auto simp: ctl_defs split: option.splits)
next
  case (ResultsFetched s r)
  then show ?thesis using assms
    by (auto simp: ctl_defs split: fetch_result.splits option.splits)
next
  case (ResultsDecoded s b)
  then show ?thesis using assms
    by (auto simp: ctl_defs Let_def split: results_body.splits option.splits status_json.splits)
next
  case (StopSettled s b)
  then show ?thesis using assms
    by (auto simp: ctl_defs split: option.splits)
qed

lemma filter_within: "list_all (\<lambda>t. t \<in> set xs) (filter P xs)"
  by (simp add: list_all_iff)

lemma same_within: "list_all (\<lambda>t. t \<in> set xs) xs"
  by (simp add: list_all_iff)

lemma stale_inert:
  assumes "currentPdfIdRef w \<noteq> Some j" and "poll_session w e = Some s" and "job_of w s = Some j"
  shows "inert e w"
proof (cases e)
  case (Drop fs)
  then show ?thesis using assms by (simp add: poll_session_def)
next
  case (UploadSettled s' r)
  then show ?thesis using assms by (simp add: poll_session_def)
next
  case (TimerFired h)
  then obtain d where t: "map_of (timers w) h = Some (s, d)"
    using assms(2) by (auto simp: poll_session_def find_timer_def)
  have "step e w = poll_return s (clearTimeout h w)"
    using TimerFired t assms(1,3)
    by (auto simp: step_def timer_fired_def find_timer_def poll_enter_def job_of_def stale_def
        clearTimeout_def split: option.splits if_splits)
  then show ?thesis
    by (simp add: inert_def poll_return_def set_pc_def clearTimeout_def view_def filter_within)
next
  case (ResultsFetched s' r)
  then have s': "s' = s" using assms(2) by (simp add: poll_session_def)
  have st: "stale w s" using assms(1,3) by (auto simp: stale_def)
  have "step e w = w \<or> step e w = set_pc s Ended w \<or> step e w = set_pc s Decoding w"
    using ResultsFetched st
    by (auto simp: s' step_def results_fetched_def poll_catch_def poll_return_def
        split: fetch_result.splits)
  then show ?thesis
    by (auto simp: inert_def set_pc_def view_def same_within)
next
  case (ResultsDecoded s' b)
  then have s': "s' = s" using assms(2) by (simp add: poll_session_def)
  have st: "stale w s" using assms(1,3) by (auto simp: stale_def)
  have "step e w = w \<or> step e w = set_pc s Ended w"
    using ResultsDecoded st assms(3)
    by (auto simp: s' step_def results_decoded_def poll_catch_def poll_return_def
        split: results_body.splits)
  then show ?thesis
    by (auto simp: inert_def set_pc_def view_def same_within)
next
  case (StopSettled s' b)
  then have s': "s' = s" using assms(2) by (simp add: poll_session_def)
  have st: "stale w s" using assms(1,3) by (auto simp: stale_def)
  have "step e w = w \<or> step e w = set_pc s Ended w"
    using StopSettled st
    by (auto simp: s' step_def stop_settled_def poll_catch_def poll_return_def)
  then show ?thesis
    by (auto simp: inert_def set_pc_def view_def same_within)
qed

lemma stale_quiet:
  "currentPdfIdRef w \<noteq> Some j \<Longrightarrow> list_all (\<lambda>e. \<not> delivers j e) es \<Longrightarrow> quiet j es w"
proof (induction es arbitrary: w)
  case Nil
  then show ?case by simp
next
  case (Cons e es)
  have "quiet j es (step e w)"
    using Cons marker_kept[of w j e] by simp
  moreover have "poll_session w e = Some s \<Longrightarrow> job_of w s = Some j \<Longrightarrow> inert e w" for s
    using stale_inert[OF Cons.prems(1)] by simp
  ultimately show ?case
    by (simp split: option.splits)
qed

lemma drop_clears_marker: "fs \<noteq> [] \<Longrightarrow> currentPdfIdRef (step (Drop fs) w) = None"
  by (auto simp: step_def onDrop_def clearPolling_def clearTimeout_def split: list.splits option.splits)

text \<open>
  How the guard works. Let a new upload begin (\<^verbatim>\<open>onDrop\<close> with a file) in any state, and
  let no upload be answered with the identifier \<open>j\<close> from then on. Then in every execution
  that follows, every step of a poll callback of job \<open>j\<close> (its timer fires, its results
  request settles, the body is read, its stop request settles) changes nothing the user can
  observe (error, analysing, account information, monthly data, analytics, results shown),
  leaves both refs as they are, sends no request and sets no timer. The callback reads the
  marker before the request, after the body and in its \<^verbatim>\<open>catch\<close>, and the marker is null
  or names another job.
\<close>

lemma superseded_polls_are_quiet:
  assumes "acceptedFiles \<noteq> []" and "list_all (\<lambda>e. \<not> delivers j e) es"
  shows "quiet j es (step (Drop acceptedFiles) w)"
  using stale_quiet[of "step (Drop acceptedFiles) w" j es] drop_clears_marker[OF assms(1), of w] assms(2)
  by simp

text \<open>
  So a first upload that was answered before the second one begins stays quiet: here its
  first poll is waiting for its response when the second file is dropped, and neither its
  response nor its \<^verbatim>\<open>completed\<close> body changes what the user sees.
\<close>

lemma superseded_polls_are_quiet_example:
  "job_of first_poll_in_flight 0 = Some (IdNum 1) \<and>
   at_pc first_poll_in_flight 0 Fetching \<and>
   quiet (IdNum 1)
     [ResultsFetched 0 (FetchResponse True),
      UploadSettled 1 (UploadOk (OkObj (Val (IdNum 2)))),
      ResultsDecoded 0 (ResObj completed_sample),
      TimerFired 1]
     (step (Drop [''b.pdf'']) first_poll_in_flight) \<and>
   view (run [ResultsFetched 0 (FetchResponse True),
              UploadSettled 1 (UploadOk (OkObj (Val (IdNum 2)))),
              ResultsDecoded 0 (ResObj completed_sample),
              TimerFired 1]
           (step (Drop [''b.pdf'']) first_poll_in_flight))
     = (None, True, None, [], None, False)"
  by code_simp

text \<open>
  Claim C1 asks for more: no poll callback of the first job may change the state once a
  second upload has begun before the poll loop of the first has terminated. The code does
  not keep this when the second upload begins while the request of the first is still on
  its way. \<^verbatim>\<open>pollForResults\<close> reads the marker after each of its waits; \<^verbatim>\<open>onDrop\<close> does not
  read it after its own. Answered last, the first upload stores its identifier in the marker
  and sets its timer; the polls of the first job then pass every guard, and the results of
  the first file are shown under the name of the second. In the execution below the big file
  is dropped first and the small one second, the small one is answered first (identifier
  2), the big one last (identifier 1): the marker names job 1, the steps of job 1 after the
  second drop are not all without effect, and at the end the results are shown while the
  file named is the small one.
\<close>

theorem overlapping_uploads:
  "currentPdfIdRef
     (run [Drop [''big.pdf''], Drop [''small.pdf''],
           UploadSettled 1 (UploadOk (OkObj (Val (IdNum 2)))),
           UploadSettled 0 (UploadOk (OkObj (Val (IdNum 1))))] initial_world) = Some (IdNum 1) \<and>
   \<not> quiet (IdNum 1)
       [UploadSettled 1 (UploadOk (OkObj (Val (IdNum 2)))),
        UploadSettled 0 (UploadOk (OkObj (Val (IdNum 1)))),
        TimerFired 1, ResultsFetched 0 (FetchResponse True),
        ResultsDecoded 0 (ResObj completed_sample)]
       (step (Drop [''small.pdf'']) (step (Drop [''big.pdf'']) initial_world)) \<and>
   showResults
     (run [Drop [''big.pdf''], Drop [''small.pdf''],
           UploadSettled 1 (UploadOk (OkObj (Val (IdNum 2)))),
           UploadSettled 0 (UploadOk (OkObj (Val (IdNum 1)))),
           TimerFired 1, ResultsFetched 0 (FetchResponse True),
           ResultsDecoded 0 (ResObj completed_sample)] initial_world) = True \<and>
   uploadedFile
     (run [Drop [''big.pdf''], Drop [''small.pdf''],
           UploadSettled 1 (UploadOk (OkObj (Val (IdNum 2)))),
           UploadSettled 0 (UploadOk (OkObj (Val (IdNum 1)))),
           TimerFired 1, ResultsFetched 0 (FetchResponse True),
           ResultsDecoded 0 (ResObj completed_sample)] initial_world) = Some ''small.pdf''"
  by code_simp

subsection \<open>Clearing the timer\<close>

lemma displaced_step:
  assumes "displaced j s w" and "\<not> delivers j e"
  shows "displaced j s (step e w)"
proof -
  have m: "currentPdfIdRef (step e w) \<noteq> Some j"
    using assms marker_kept[of w j e] by (simp add: displaced_def)
  have s: "s < length (sessions w)" and j: "pdfId (sessions w ! s) = Some j"
    and u: "pc (sessions w ! s) \<noteq> Uploading" and t: "timers_of w s = []"
    and st: "stale w s"
    using assms(1) by (auto simp: displaced_def job_of_def at_pc_def stale_def split: if_splits)
  have "job_of (step e w) s = Some j \<and> \<not> at_pc (step e w) s Uploading \<and>
        timers_of (step e w) s = []"
  proof (cases e)
    case (Drop fs)
    then show ?thesis using s j u t
      by (auto simp: ctl_defs nth_append filter_empty_conv split: list.splits option.splits)
  next
    case (UploadSettled s' r)
    show ?thesis
    proof (cases "s' = s")
      case True
      then show ?thesis using s j u t UploadSettled
        by (simp add: step_def upload_settled_def at_pc_def job_of_def)
    next
      case False
      then show ?thesis using s j u t UploadSettled
        by (auto simp: ctl_defs filter_empty_conv
            split: upload_response.splits upload_error_body.splits upload_ok_body.splits
              jfield.splits option.splits)
    qed
  next
    case (TimerFired h)
    show ?thesis
    proof (cases "map_of (timers w) h")
      case None
      then show ?thesis using s j u t TimerFired
        by (simp add: step_def timer_fired_def find_timer_def job_of_def at_pc_def)
    next
      case (Some x)
      then have "(h, x) \<in> set (timers w)" by (rule map_of_SomeD)
      then have "fst x \<noteq> s" using t by (auto simp: timers_of_def filter_empty_conv)
      then show ?thesis using s j u t TimerFired Some
        by (auto simp: ctl_defs filter_empty_conv split: option.splits)
    qed
  next
    case (ResultsFetched s' r)
    show ?thesis
    proof (cases "s' = s")
      case True
      have "step e w = w \<or> step e w = set_pc s Ended w \<or> step e w = set_pc s Decoding w"
        using ResultsFetched st True
        by (auto simp: step_def results_fetched_def poll_catch_def poll_return_def
            split: fetch_result.splits)
      then show ?thesis using s j u t
        by (auto simp: set_pc_def job_of_def at_pc_def timers_of_def)
    next
      case False
      then show ?thesis using s j u t ResultsFetched
        by (auto simp: ctl_defs filter_empty_conv split: fetch_result.splits option.splits)
    qed
  next
    case (ResultsDecoded s' b)
    show ?thesis
    proof (cases "s' = s")
      case True
      have "step e w = w \<or> step e w = set_pc s Ended w"
        using ResultsDecoded st True s j
        by (auto simp: step_def results_decoded_def poll_catch_def poll_return_def job_of_def
            split: results_body.splits)
      then show ?thesis using s j u t
        by (auto simp: set_pc_def job_of_def at_pc_def timers_of_def)
    next
      case False
      then show ?thesis using s j u t ResultsDecoded
        by (auto simp: ctl_defs Let_def filter_empty_conv
            split: results_body.splits option.splits status_json.splits)
    qed
  next
    case (StopSettled s' b)
    show ?thesis
    proof (cases "s' = s")
      case True
      have "step e w = w \<or> step e w = set_pc s Ended w"
        using StopSettled st True
        by (auto simp: step_def stop_settled_def poll_catch_def poll_return_def)
      then show ?thesis using s j u t
        by (auto simp: set_pc_def job_of_def at_pc_def timers_of_def)
    next
      case False
      then show ?thesis using s j u t StopSettled
        by (auto simp: ctl_defs filter_empty_conv split: option.splits)
    qed
  qed
  with m show ?thesis by (simp add: displaced_def)
qed

lemma displaced_run:
  "displaced j s w \<Longrightarrow> list_all (\<lambda>e. \<not> delivers j e) es \<Longrightarrow> displaced j s (run es w)"
proof (induction es arbitrary: w)
  case Nil
  then show ?case by simp
next
  case (Cons e es)
  then show ?case using displaced_step[of j s w e] by simp
qed






subsection \<open>Executions from the fresh page\<close>










lemma active_cong:
  assumes "currentPdfIdRef w' = currentPdfIdRef w" and "job_of w' s = job_of w s"
  shows "active w' s = active w s"
  using assms by (simp add: active_def)











end
